theory Spec2Isabelle
  imports Main
begin

section \<open>Python strings\<close>

text \<open>
  A Python \<open>str\<close> is a sequence of code points. A \<^typ>\<open>char\<close> stands for one code
  point below 256, so the development covers the texts written in that range; the
  character classes below are those of Python for these code points.
\<close>

definition isspace :: "char \<Rightarrow> bool" where
  \<comment> \<open>the code points that \<open>str.strip()\<close> removes: TAB..CR, FS..US, space, NEL, NBSP\<close>
  "isspace c = (let n = (of_char c :: nat)
                in (9 \<le> n \<and> n \<le> 13) \<or> (28 \<le> n \<and> n \<le> 32) \<or> n = 133 \<or> n = 160)"

definition strip :: "string \<Rightarrow> string" where
  "strip s = rev (dropWhile isspace (rev (dropWhile isspace s)))"

definition is_decimal :: "char \<Rightarrow> bool" where
  \<comment> \<open>the decimal digits that \<open>int()\<close> reads\<close>
  "is_decimal c = (let n = (of_char c :: nat) in 48 \<le> n \<and> n \<le> 57)"

definition isdigit_char :: "char \<Rightarrow> bool" where
  \<comment> \<open>\<open>str.isdigit()\<close> also holds of the superscripts two, three and one\<close>
  "isdigit_char c = (let n = (of_char c :: nat)
                     in (48 \<le> n \<and> n \<le> 57) \<or> n = 178 \<or> n = 179 \<or> n = 185)"

definition isdigit :: "string \<Rightarrow> bool" where
  "isdigit s = (s \<noteq> [] \<and> list_all isdigit_char s)"

definition lower_char :: "char \<Rightarrow> char" where
  "lower_char c = (let n = (of_char c :: nat)
                   in if (65 \<le> n \<and> n \<le> 90) \<or> (192 \<le> n \<and> n \<le> 222 \<and> n \<noteq> 215)
                      then char_of (n + 32) else c)"

definition lower :: "string \<Rightarrow> string" where
  "lower s = map lower_char s"

fun startswith :: "string \<Rightarrow> string \<Rightarrow> bool" where
  "startswith s [] = True"
| "startswith [] (q # qs) = False"
| "startswith (c # cs) (q # qs) = (c = q \<and> startswith cs qs)"

fun contains :: "string \<Rightarrow> string \<Rightarrow> bool" where
  \<comment> \<open>\<open>q in s\<close>\<close>
  "contains q [] = (q = [])"
| "contains q (c # cs) = (startswith (c # cs) q \<or> contains q cs)"

subsection \<open>Reading an integer: \<open>int(s)\<close>\<close>

text \<open>
  \<open>int(s)\<close> skips the white space around the number, which is TAB..CR, space, NEL and
  NBSP (not FS..US, which \<open>str.strip()\<close> removes), reads an optional sign and then
  decimal digits, where single underscores may stand between two digits. It raises
  \<open>ValueError\<close> on anything else, and also when the text has more digits than the limit
  of the interpreter, which is 4300 unless it is configured otherwise (CPython 3.11 and
  later); the sign and the underscores do not count. \<open>ValueError\<close> is \<open>None\<close> here.
\<close>

definition int_space :: "char \<Rightarrow> bool" where
  "int_space c = (let n = (of_char c :: nat)
                  in (9 \<le> n \<and> n \<le> 13) \<or> n = 32 \<or> n = 133 \<or> n = 160)"

definition int_max_str_digits :: nat where
  "int_max_str_digits = 4300"

fun digit_groups :: "string \<Rightarrow> bool" where
  "digit_groups [] = False"
| "digit_groups [c] = is_decimal c"
| "digit_groups (c # d # cs) =
     (is_decimal c \<and> (if d = CHR ''_'' then digit_groups cs else digit_groups (d # cs)))"

definition digits_value :: "string \<Rightarrow> nat" where
  "digits_value s = foldl (\<lambda>acc c. 10 * acc + (of_char c - 48)) 0 (filter is_decimal s)"

definition read_digits :: "string \<Rightarrow> nat option" where
  "read_digits r =
     (if digit_groups r \<and> length (filter is_decimal r) \<le> int_max_str_digits
      then Some (digits_value r) else None)"

definition py_int :: "string \<Rightarrow> int option" where
  "py_int s =
     (case rev (dropWhile int_space (rev (dropWhile int_space s))) of
        [] \<Rightarrow> None
      | c # r \<Rightarrow>
          if c = CHR ''-'' then map_option (\<lambda>n. - int n) (read_digits r)
          else if c = CHR ''+'' then map_option int (read_digits r)
          else map_option int (read_digits (c # r)))"

section \<open>Data model\<close>

text \<open>
  A book is the dictionary that \<open>add_book\<close> builds; the store is the dictionary
  \<open>db\<close> with the list \<open>db["books"]\<close> and the counter \<open>db["next_id"]\<close>. The
  counter is read with \<open>db.get("next_id", 1)\<close>, so the store may lack it.
\<close>

record book =
  book_id :: int
  title :: string
  author :: string
  year :: string
  available :: bool
  borrower :: string
  borrowed_at :: string
  returned_at :: string
  created_at :: string
  updated_at :: string

record db =
  books :: "book list"
  next_id_key :: "int option"

text \<open>A decoded JSON document, as \<open>json.load\<close> returns it.\<close>

datatype pyval =
    PNone
  | PBool bool
  | PInt int
  | PStr string
  | PList "pyval list"
  | PDict "(string \<times> pyval) list"

definition dict_of_book :: "book \<Rightarrow> pyval" where
  "dict_of_book b = PDict
     [(''id'', PInt (book_id b)), (''title'', PStr (title b)), (''author'', PStr (author b)),
      (''year'', PStr (year b)), (''available'', PBool (available b)),
      (''borrower'', PStr (borrower b)), (''borrowed_at'', PStr (borrowed_at b)),
      (''returned_at'', PStr (returned_at b)), (''created_at'', PStr (created_at b)),
      (''updated_at'', PStr (updated_at b))]"

definition dict_of_db :: "db \<Rightarrow> pyval" where
  \<comment> \<open>the dictionary that a store is, key by key\<close>
  "dict_of_db d = PDict
     ((''books'', PList (map dict_of_book (books d))) #
      (case next_id_key d of None \<Rightarrow> [] | Some n \<Rightarrow> [(''next_id'', PInt n)]))"

section \<open>The environment: files and the clock\<close>

text \<open>
  The file system maps a path to the text of the file there. The clock is the sequence
  of the strings that successive calls of \<open>now()\<close> return; \<open>ticks\<close> counts the calls
  made so far.
\<close>

record world =
  files :: "string \<Rightarrow> string option"
  clock :: "nat \<Rightarrow> string"
  ticks :: nat

type_synonym state = "db \<times> world"

definition DB_FILE :: string where
  "DB_FILE = ''library.json''"

datatype py_exn = JSONDecodeError

text \<open>
  \<open>json.load\<close> and \<open>json.dump\<close> belong to Python's library: the decoder \<open>loads\<close>
  (\<open>None\<close> when it raises) and the encoder \<open>dumps\<close> are parameters.
\<close>

definition load_db :: "(string \<Rightarrow> pyval option) \<Rightarrow> world \<Rightarrow> (py_exn + pyval) \<times> world" where
  "load_db loads w =
     (case files w DB_FILE of
        Some txt \<Rightarrow>
          (case loads txt of None \<Rightarrow> (Inl JSONDecodeError, w) | Some v \<Rightarrow> (Inr v, w))
      | None \<Rightarrow> (Inr (PDict [(''books'', PList []), (''next_id'', PInt 1)]), w))"

definition save_db :: "(pyval \<Rightarrow> string) \<Rightarrow> db \<Rightarrow> world \<Rightarrow> world" where
  "save_db dumps d w = w\<lparr>files := (files w)(DB_FILE \<mapsto> dumps (dict_of_db d))\<rparr>"

section \<open>Helpers\<close>

definition prompt :: "string \<Rightarrow> string" where
  \<comment> \<open>the argument is the line that the user types\<close>
  "prompt line = strip line"

definition now :: "world \<Rightarrow> string \<times> world" where
  "now w = (clock w (ticks w), w\<lparr>ticks := Suc (ticks w)\<rparr>)"

definition next_id :: "db \<Rightarrow> int \<times> db" where
  "next_id d =
     (let nid = (case next_id_key d of Some n \<Rightarrow> n | None \<Rightarrow> 1)
      in (nid, d\<lparr>next_id_key := Some (nid + 1)\<rparr>))"

definition find_by_id :: "db \<Rightarrow> int \<Rightarrow> book option" where
  "find_by_id d bid = find (\<lambda>b. book_id b = bid) (books d)"

text \<open>
  \<open>find_by_id\<close> returns the dictionary that is in the list, and the actions assign to
  its keys: the first book of the list with that id changes in place.
\<close>

fun assign_found :: "int \<Rightarrow> (book \<Rightarrow> book) \<Rightarrow> book list \<Rightarrow> book list" where
  "assign_found bid f [] = []"
| "assign_found bid f (b # bs) =
     (if book_id b = bid then f b # bs else b # assign_found bid f bs)"

section \<open>Actions\<close>

text \<open>What an action prints before it returns.\<close>

datatype outcome =
    Book_added
  | All_fields_are_required
  | Year_must_be_a_number
  | Please_enter_a_keyword
  | No_matches
  | Results string "book list"
  | Please_enter_a_number
  | ID_not_found
  | Year_must_be_numeric
  | Updated
  | Deleted
  | Already_borrowed_by string
  | Borrower_name_required
  | Borrowed
  | This_book_is_already_available
  | Returned

fun add_book :: "(pyval \<Rightarrow> string) \<Rightarrow> string \<Rightarrow> string \<Rightarrow> string \<Rightarrow> state \<Rightarrow> outcome \<times> state" where
  "add_book dumps title_in author_in year_in (d, w) =
     (let t = prompt title_in; a = prompt author_in; y = prompt year_in
      in if t = [] \<or> a = [] \<or> y = [] then (All_fields_are_required, (d, w))
         else case py_int y of
           None \<Rightarrow> (Year_must_be_a_number, (d, w))
         | Some _ \<Rightarrow>
             let (nid, d1) = next_id d;
                 (t1, w1) = now w;
                 (t2, w2) = now w1;
                 b = \<lparr>book_id = nid, title = t, author = a, year = y, available = True,
                      borrower = [], borrowed_at = [], returned_at = [],
                      created_at = t1, updated_at = t2\<rparr>;
                 d2 = d1\<lparr>books := books d1 @ [b]\<rparr>
             in (Book_added, (d2, save_db dumps d2 w2)))"

definition search_books :: "string \<Rightarrow> db \<Rightarrow> outcome" where
  "search_books keyword_in d =
     (let q = lower (prompt keyword_in)
      in if q = [] then Please_enter_a_keyword
         else let results = filter (\<lambda>b. contains q (lower (title b)) \<or> contains q (lower (author b)))
                                   (books d)
              in if results = [] then No_matches else Results q results)"

fun update_book ::
  "(pyval \<Rightarrow> string) \<Rightarrow> string \<Rightarrow> string \<Rightarrow> string \<Rightarrow> string \<Rightarrow> state \<Rightarrow> outcome \<times> state" where
  "update_book dumps id_in title_in author_in year_in (d, w) =
     (case py_int (prompt id_in) of
        None \<Rightarrow> (Please_enter_a_number, (d, w))
      | Some bid \<Rightarrow>
          (case find_by_id d bid of
             None \<Rightarrow> (ID_not_found, (d, w))
           | Some b \<Rightarrow>
               let new_title = (if prompt title_in \<noteq> [] then prompt title_in else title b);
                   new_author = (if prompt author_in \<noteq> [] then prompt author_in else author b);
                   new_year = (if prompt year_in \<noteq> [] then prompt year_in else year b)
               in if new_year \<noteq> [] \<and> \<not> isdigit new_year then (Year_must_be_numeric, (d, w))
                  else
                    let (t1, w1) = now w;
                        d1 = d\<lparr>books := assign_found bid
                               (\<lambda>b. b\<lparr>title := new_title, author := new_author,
                                       year := new_year, updated_at := t1\<rparr>) (books d)\<rparr>
                    in (Updated, (d1, save_db dumps d1 w1))))"

fun delete_book :: "(pyval \<Rightarrow> string) \<Rightarrow> string \<Rightarrow> state \<Rightarrow> outcome \<times> state" where
  "delete_book dumps id_in (d, w) =
     (case py_int (prompt id_in) of
        None \<Rightarrow> (Please_enter_a_number, (d, w))
      | Some bid \<Rightarrow>
          let n_before = length (books d);
              d1 = d\<lparr>books := filter (\<lambda>b. book_id b \<noteq> bid) (books d)\<rparr>
          in if length (books d1) < n_before then (Deleted, (d1, save_db dumps d1 w))
             else (ID_not_found, (d1, w)))"

fun borrow_book :: "(pyval \<Rightarrow> string) \<Rightarrow> string \<Rightarrow> string \<Rightarrow> state \<Rightarrow> outcome \<times> state" where
  "borrow_book dumps id_in borrower_in (d, w) =
     (case py_int (prompt id_in) of
        None \<Rightarrow> (Please_enter_a_number, (d, w))
      | Some bid \<Rightarrow>
          (case find_by_id d bid of
             None \<Rightarrow> (ID_not_found, (d, w))
           | Some b \<Rightarrow>
               if \<not> available b then (Already_borrowed_by (borrower b), (d, w))
               else
                 let name = prompt borrower_in
                 in if name = [] then (Borrower_name_required, (d, w))
                    else
                      let (t1, w1) = now w;
                          (t2, w2) = now w1;
                          d1 = d\<lparr>books := assign_found bid
                                 (\<lambda>b. b\<lparr>available := False, borrower := name, borrowed_at := t1,
                                         returned_at := [], updated_at := t2\<rparr>) (books d)\<rparr>
                      in (Borrowed, (d1, save_db dumps d1 w2))))"

fun return_book :: "(pyval \<Rightarrow> string) \<Rightarrow> string \<Rightarrow> state \<Rightarrow> outcome \<times> state" where
  "return_book dumps id_in (d, w) =
     (case py_int (prompt id_in) of
        None \<Rightarrow> (Please_enter_a_number, (d, w))
      | Some bid \<Rightarrow>
          (case find_by_id d bid of
             None \<Rightarrow> (ID_not_found, (d, w))
           | Some b \<Rightarrow>
               if available b then (This_book_is_already_available, (d, w))
               else
                 let (t1, w1) = now w;
                     (t2, w2) = now w1;
                     d1 = d\<lparr>books := assign_found bid
                            (\<lambda>b. b\<lparr>available := True, returned_at := t1, borrower := [],
                                    updated_at := t2\<rparr>) (books d)\<rparr>
                 in (Returned, (d1, save_db dumps d1 w2))))"

section \<open>Runs of the store\<close>

text \<open>
  The menu loop calls one action after the other on the same store. An operation carries
  the lines typed at the prompts of its action.
\<close>

datatype op =
    Create string string string
  | Update string string string string
  | Delete string
  | Borrow string string
  | Return string

fun step :: "(pyval \<Rightarrow> string) \<Rightarrow> op \<Rightarrow> state \<Rightarrow> outcome \<times> state" where
  "step dumps (Create t a y) s = add_book dumps t a y s"
| "step dumps (Update i t a y) s = update_book dumps i t a y s"
| "step dumps (Delete i) s = delete_book dumps i s"
| "step dumps (Borrow i n) s = borrow_book dumps i n s"
| "step dumps (Return i) s = return_book dumps i s"

fun run :: "(pyval \<Rightarrow> string) \<Rightarrow> op list \<Rightarrow> state \<Rightarrow> state" where
  "run dumps [] s = s"
| "run dumps (x # xs) s = run dumps xs (snd (step dumps x s))"

definition fresh_db :: db where
  "fresh_db = \<lparr>books = [], next_id_key = Some 1\<rparr>"

section \<open>Notions of the specification\<close>

text \<open>
  The id that the next successful \<open>add_book\<close> assigns, the invariant that every id of the
  store lies below it, and the ids that a run assigns: after \<open>Book_added\<close> the new book
  is the last of the list.
\<close>

definition counter :: "db \<Rightarrow> int" where
  "counter d = fst (next_id d)"

definition ids_below_counter :: "db \<Rightarrow> bool" where
  "ids_below_counter d = list_all (\<lambda>b. book_id b < counter d) (books d)"

fun assigned_ids :: "(pyval \<Rightarrow> string) \<Rightarrow> op list \<Rightarrow> state \<Rightarrow> int list" where
  "assigned_ids dumps [] s = []"
| "assigned_ids dumps (x # xs) s =
     (case step dumps x s of
        (out, (d', w')) \<Rightarrow>
          (if out = Book_added then [book_id (last (books d'))] else [])
          @ assigned_ids dumps xs (d', w'))"

text \<open>The lending invariant of one book.\<close>

definition lending_ok :: "book \<Rightarrow> bool" where
  "lending_ok b = ((available b = False) = (borrower b \<noteq> []))"

section \<open>Examples\<close>

text \<open>
  The encoder of the examples writes what \<open>json.dump(db, f, indent=2)\<close> writes: two
  spaces for each level, \<open>,\<close> between the items, \<open>: \<close> after a key, and every
  character outside the printable ASCII range escaped.
\<close>

fun nat_digits :: "nat \<Rightarrow> string" where
  "nat_digits n = (if n < 10 then [char_of (48 + n)]
                   else nat_digits (n div 10) @ [char_of (48 + n mod 10)])"

definition int_repr :: "int \<Rightarrow> string" where
  "int_repr i = (if i < 0 then CHR ''-'' # nat_digits (nat (- i)) else nat_digits (nat i))"

definition hex_digit :: "nat \<Rightarrow> char" where
  "hex_digit n = (if n < 10 then char_of (48 + n) else char_of (87 + n))"

definition escape_char :: "char \<Rightarrow> string" where
  "escape_char c =
     (let n = (of_char c :: nat); bs = CHR 0x5C
      in if n = 34 then [bs, c]
         else if n = 92 then [bs, bs]
         else if n = 10 then [bs, CHR ''n'']
         else if n = 13 then [bs, CHR ''r'']
         else if n = 9 then [bs, CHR ''t'']
         else if n = 8 then [bs, CHR ''b'']
         else if n = 12 then [bs, CHR ''f'']
         else if n < 32 \<or> 126 < n
           then [bs, CHR ''u'', CHR ''0'', CHR ''0'', hex_digit (n div 16), hex_digit (n mod 16)]
         else [c])"

definition quoted :: "string \<Rightarrow> string" where
  "quoted s = CHR 0x22 # concat (map escape_char s) @ [CHR 0x22]"

definition newline_indent :: "nat \<Rightarrow> string" where
  "newline_indent lvl = CHR 0x0A # replicate (2 * lvl) CHR '' ''"

fun join_items :: "string list \<Rightarrow> string" where
  "join_items [] = []"
| "join_items [x] = x"
| "join_items (x # y # ys) = x @ CHR '','' # join_items (y # ys)"

fun json_encode :: "nat \<Rightarrow> pyval \<Rightarrow> string" where
  "json_encode lvl PNone = ''null''"
| "json_encode lvl (PBool b) = (if b then ''true'' else ''false'')"
| "json_encode lvl (PInt i) = int_repr i"
| "json_encode lvl (PStr s) = quoted s"
| "json_encode lvl (PList vs) =
     (if vs = [] then ''[]''
      else ''['' @ join_items (map (\<lambda>v. newline_indent (Suc lvl) @ json_encode (Suc lvl) v) vs)
           @ newline_indent lvl @ '']'')"
| "json_encode lvl (PDict kvs) =
     (if kvs = [] then ''{}''
      else ''{'' @ join_items (map (\<lambda>kv. newline_indent (Suc lvl) @ quoted (fst kv) @ '': ''
                                          @ json_encode (Suc lvl) (snd kv)) kvs)
           @ newline_indent lvl @ ''}'')"

definition json_dumps :: "pyval \<Rightarrow> string" where
  "json_dumps v = json_encode 0 v"

text \<open>A world with no file, whose clock stays within one minute.\<close>

definition quiet_world :: world where
  "quiet_world = \<lparr>files = Map.empty, clock = (\<lambda>n. ''2024-01-01 10:00''), ticks = 0\<rparr>"

definition dune :: book where
  "dune = \<lparr>book_id = 1, title = ''Dune'', author = ''Herbert'', year = ''1965'',
           available = True, borrower = [], borrowed_at = [], returned_at = [],
           created_at = ''2024-01-01 10:00'', updated_at = ''2024-01-01 10:00''\<rparr>"

definition dune_db :: db where
  "dune_db = \<lparr>books = [dune], next_id_key = Some 2\<rparr>"

definition lent_dune :: book where
  "lent_dune = dune\<lparr>available := False, borrower := ''Ana'', borrowed_at := ''2024-01-01 10:00''\<rparr>"

definition lent_db :: db where
  "lent_db = \<lparr>books = [lent_dune], next_id_key = Some 2\<rparr>"

section \<open>Lemmas on the list of books\<close>

lemma find_assign_found:
  "(\<And>b. book_id (f b) = book_id b) \<Longrightarrow>
   find (\<lambda>b. book_id b = bid) (assign_found bid f bs)
     = map_option f (find (\<lambda>b. book_id b = bid) bs)"
  by (induction bs) simp_all

lemma list_all_assign_found:
  "list_all P bs \<Longrightarrow> (\<And>b. P b \<Longrightarrow> P (f b)) \<Longrightarrow> list_all P (assign_found bid f bs)"
  by (induction bs) simp_all

lemma map_book_id_assign_found:
  "(\<And>b. book_id (f b) = book_id b) \<Longrightarrow> map book_id (assign_found bid f bs) = map book_id bs"
  by (induction bs) simp_all

section \<open>The lending invariant\<close>

lemma lending_ok_update:
  "lending_ok (b\<lparr>title := t, author := a, year := y, updated_at := u\<rparr>) = lending_ok b"
  by (simp add: lending_ok_def)

lemma lending_ok_borrow:
  "n \<noteq> [] \<Longrightarrow> lending_ok (b\<lparr>available := False, borrower := n, borrowed_at := t1,
                                  returned_at := [], updated_at := t2\<rparr>)"
  by (simp add: lending_ok_def)

lemma lending_ok_return:
  "lending_ok (b\<lparr>available := True, returned_at := t1, borrower := [], updated_at := t2\<rparr>)"
  by (simp add: lending_ok_def)

lemma step_lending:
  assumes "list_all lending_ok (books d)"
  shows "list_all lending_ok (books (fst (snd (step dumps x (d, w)))))"
proof (cases x)
  case (Create t a y)
  with assms show ?thesis
    by (simp add: Let_def next_id_def lending_ok_def split: option.splits prod.splits)
next
  case (Update i t a y)
  with assms show ?thesis
    by (simp add: Let_def list_all_assign_found lending_ok_update split: option.splits prod.splits)
next
  case (Delete i)
  with assms show ?thesis
    by (simp add: Let_def list_all_iff split: option.splits)
next
  case (Borrow i n)
  with assms show ?thesis
    by (simp add: Let_def list_all_assign_found lending_ok_borrow split: option.splits prod.splits)
next
  case (Return i)
  with assms show ?thesis
    by (simp add: Let_def list_all_assign_found lending_ok_return split: option.splits prod.splits)
qed

lemma run_lending:
  "list_all lending_ok (books (fst s)) \<Longrightarrow> list_all lending_ok (books (fst (run dumps xs s)))"
proof (induction xs arbitrary: s)
  case Nil
  then show ?case by simp
next
  case (Cons x xs)
  obtain d w where s: "s = (d, w)" by (cases s)
  from Cons.prems have "list_all lending_ok (books (fst (snd (step dumps x s))))"
    unfolding s by (simp add: step_lending)
  then show ?case by (simp add: Cons.IH)
qed

text \<open>
  C1. In every store that a sequence of Create, Update, Delete, Borrow and Return
  operations reaches from the fresh store, with any clock, any files and any encoder, a
  book is not available if and only if its borrower is a non-empty string.
\<close>

theorem lending_invariant:
  "b \<in> set (books (fst (run dumps xs (fresh_db, w)))) \<Longrightarrow>
   (available b = False) = (borrower b \<noteq> [])"
  using run_lending [of "(fresh_db, w)" dumps xs]
  by (simp add: fresh_db_def list_all_iff lending_ok_def)

theorem lending_invariant_witness:
  "lent_dune \<in> set (books (fst (run json_dumps
       [Create ''Dune'' ''Herbert'' ''1965'', Borrow ''1'' ''Ana''] (fresh_db, quiet_world)))) \<and>
   (available lent_dune = False) = (borrower lent_dune \<noteq> [])"
proof -
  have h: "lent_dune \<in> set (books (fst (run json_dumps
       [Create ''Dune'' ''Herbert'' ''1965'', Borrow ''1'' ''Ana''] (fresh_db, quiet_world))))"
    by code_simp
  from lending_invariant [OF h] h show ?thesis by blast
qed

section \<open>Create\<close>

lemma counter_simp: "counter d = (case next_id_key d of Some n \<Rightarrow> n | None \<Rightarrow> 1)"
  by (simp add: counter_def next_id_def Let_def)

lemma add_book_accepts:
  assumes "prompt t \<noteq> []" and "prompt a \<noteq> []" and "prompt y \<noteq> []" and "py_int (prompt y) \<noteq> None"
  shows "\<exists>b. fst (add_book dumps t a y (d, w)) = Book_added \<and>
             books (fst (snd (add_book dumps t a y (d, w)))) = books d @ [b] \<and>
             book_id b = counter d \<and> available b \<and> borrower b = [] \<and>
             title b = prompt t \<and> author b = prompt a \<and> year b = prompt y"
  using assms
  by (auto simp: Let_def counter_simp next_id_def now_def split: option.splits)

lemma step_added:
  assumes "fst (step dumps x (d, w)) = Book_added"
  shows "\<exists>b. books (fst (snd (step dumps x (d, w)))) = books d @ [b] \<and> book_id b = counter d \<and>
             counter (fst (snd (step dumps x (d, w)))) = counter d + 1"
proof (cases x)
  case (Create t a y)
  with assms show ?thesis
    by (auto simp: Let_def counter_simp next_id_def now_def split: option.splits if_splits)
next
  case (Update i t a y)
  with assms show ?thesis
    by (auto simp: Let_def split: option.splits if_splits prod.splits)
next
  case (Delete i)
  with assms show ?thesis
    by (auto simp: Let_def split: option.splits if_splits)
next
  case (Borrow i n)
  with assms show ?thesis
    by (auto simp: Let_def split: option.splits if_splits prod.splits)
next
  case (Return i)
  with assms show ?thesis
    by (auto simp: Let_def split: option.splits if_splits prod.splits)
qed

lemma list_all_book_id_assign_found:
  "(\<And>b. book_id (f b) = book_id b) \<Longrightarrow>
   list_all (\<lambda>b. book_id b < c) (assign_found bid f bs) = list_all (\<lambda>b. book_id b < c) bs"
  by (induction bs) simp_all

lemma step_not_added_key:
  assumes "fst (step dumps x (d, w)) \<noteq> Book_added"
  shows "next_id_key (fst (snd (step dumps x (d, w)))) = next_id_key d"
proof (cases x)
  case (Create t a y)
  with assms show ?thesis
    by (auto simp: Let_def next_id_def now_def split: option.splits if_splits)
next
  case (Update i t a y)
  with assms show ?thesis
    by (simp add: Let_def split: option.splits prod.splits)
next
  case (Delete i)
  with assms show ?thesis
    by (simp add: Let_def split: option.splits)
next
  case (Borrow i n)
  with assms show ?thesis
    by (simp add: Let_def split: option.splits prod.splits)
next
  case (Return i)
  with assms show ?thesis
    by (simp add: Let_def split: option.splits prod.splits)
qed

lemma step_not_added_ids:
  assumes "fst (step dumps x (d, w)) \<noteq> Book_added" and "list_all (\<lambda>b. book_id b < c) (books d)"
  shows "list_all (\<lambda>b. book_id b < c) (books (fst (snd (step dumps x (d, w)))))"
proof (cases x)
  case (Create t a y)
  with assms show ?thesis
    by (auto simp: Let_def next_id_def now_def split: option.splits if_splits)
next
  case (Update i t a y)
  with assms show ?thesis
    by (simp add: Let_def list_all_book_id_assign_found split: option.splits prod.splits)
next
  case (Delete i)
  with assms show ?thesis
    by (simp add: Let_def list_all_iff split: option.splits)
next
  case (Borrow i n)
  with assms show ?thesis
    by (simp add: Let_def list_all_book_id_assign_found split: option.splits prod.splits)
next
  case (Return i)
  with assms show ?thesis
    by (simp add: Let_def list_all_book_id_assign_found split: option.splits prod.splits)
qed

lemma step_counter_mono: "counter d \<le> counter (fst (snd (step dumps x (d, w))))"
proof (cases "fst (step dumps x (d, w)) = Book_added")
  case True
  from step_added [OF True] show ?thesis by auto
next
  case False
  from step_not_added_key [OF False] show ?thesis by (simp add: counter_simp)
qed

lemma step_ids_below:
  assumes "ids_below_counter d"
  shows "ids_below_counter (fst (snd (step dumps x (d, w))))"
proof (cases "fst (step dumps x (d, w)) = Book_added")
  case True
  from step_added [OF True] obtain b where
    b: "books (fst (snd (step dumps x (d, w)))) = books d @ [b]" "book_id b = counter d"
       "counter (fst (snd (step dumps x (d, w)))) = counter d + 1"
    by blast
  from assms have "list_all (\<lambda>b. book_id b < counter d + 1) (books d)"
    by (auto simp: ids_below_counter_def list_all_iff)
  with b show ?thesis by (simp add: ids_below_counter_def)
next
  case False
  from step_not_added_ids [OF False, of "counter d"] step_not_added_key [OF False] assms
  show ?thesis by (simp add: ids_below_counter_def counter_simp)
qed

lemma run_counter_mono: "counter (fst s) \<le> counter (fst (run dumps xs s))"
proof (induction xs arbitrary: s)
  case Nil
  show ?case by simp
next
  case (Cons x xs)
  obtain d w where s: "s = (d, w)" by (cases s)
  have "counter d \<le> counter (fst (snd (step dumps x (d, w))))" by (rule step_counter_mono)
  also have "\<dots> \<le> counter (fst (run dumps xs (snd (step dumps x (d, w)))))" by (rule Cons.IH)
  finally show ?case by (simp add: s)
qed

lemma assigned_ids_bounds:
  "i \<in> set (assigned_ids dumps xs s) \<Longrightarrow>
   counter (fst s) \<le> i \<and> i < counter (fst (run dumps xs s))"
proof (induction xs arbitrary: s)
  case Nil
  then show ?case by simp
next
  case (Cons x xs)
  obtain d w where s: "s = (d, w)" by (cases s)
  obtain out d' w' where st: "step dumps x (d, w) = (out, (d', w'))"
    by (cases "step dumps x (d, w)") auto
  have mono: "counter d \<le> counter d'" using step_counter_mono [of d dumps x w] st by simp
  show ?case
  proof (cases "i \<in> set (assigned_ids dumps xs (d', w'))")
    case True
    from Cons.IH [OF True] mono show ?thesis by (simp add: s st)
  next
    case False
    with Cons.prems have a: "out = Book_added" and i: "i = book_id (last (books d'))"
      by (auto simp: s st split: if_splits)
    from a st step_added [of dumps x d w] have "i = counter d" "counter d' = counter d + 1"
      by (auto simp: i)
    with run_counter_mono [of "(d', w')" dumps xs] show ?thesis by (simp add: s st)
  qed
qed

lemma run_ids_below:
  "ids_below_counter (fst s) \<Longrightarrow> ids_below_counter (fst (run dumps xs s))"
proof (induction xs arbitrary: s)
  case Nil
  then show ?case by simp
next
  case (Cons x xs)
  obtain d w where s: "s = (d, w)" by (cases s)
  from Cons.prems have "ids_below_counter (fst (snd (step dumps x s)))"
    unfolding s by (simp add: step_ids_below)
  then show ?case by (simp add: Cons.IH)
qed

text \<open>
  C2. From any store whose ids lie below its counter (the fresh store is one), after any
  list of operations: when title, author and year are not empty after stripping and
  \<open>int\<close> reads the year, \<open>add_book\<close> succeeds and appends a book that is available and
  whose id is greater than every id that the run assigned before, and greater than the id
  of every book of the store, at the start and now.
\<close>

theorem add_book_assigns_greater_id:
  assumes "prompt t \<noteq> []" and "prompt a \<noteq> []" and "prompt y \<noteq> []"
    and "py_int (prompt y) \<noteq> None" and "ids_below_counter d0"
  shows "\<exists>b. fst (add_book dumps t a y (run dumps xs (d0, w0))) = Book_added \<and>
             books (fst (snd (add_book dumps t a y (run dumps xs (d0, w0)))))
               = books (fst (run dumps xs (d0, w0))) @ [b] \<and>
             available b \<and>
             (\<forall>i \<in> set (assigned_ids dumps xs (d0, w0)). i < book_id b) \<and>
             (\<forall>x \<in> set (books d0) \<union> set (books (fst (run dumps xs (d0, w0)))). book_id x < book_id b)"
proof -
  obtain d w where r: "run dumps xs (d0, w0) = (d, w)" by (cases "run dumps xs (d0, w0)")
  from add_book_accepts [OF assms(1-4), of dumps d w] obtain b where
    b: "fst (add_book dumps t a y (d, w)) = Book_added"
       "books (fst (snd (add_book dumps t a y (d, w)))) = books d @ [b]"
       "book_id b = counter d" "available b"
    by blast
  have 1: "\<forall>i \<in> set (assigned_ids dumps xs (d0, w0)). i < book_id b"
    using assigned_ids_bounds [of _ dumps xs "(d0, w0)"] by (simp add: r b)
  have "ids_below_counter d" using run_ids_below [of "(d0, w0)" dumps xs] assms(5) by (simp add: r)
  then have 2: "\<forall>x \<in> set (books d). book_id x < book_id b"
    by (simp add: ids_below_counter_def list_all_iff b)
  have "counter d0 \<le> counter d" using run_counter_mono [of "(d0, w0)" dumps xs] by (simp add: r)
  with assms(5) have 3: "\<forall>x \<in> set (books d0). book_id x < book_id b"
    by (auto simp: ids_below_counter_def list_all_iff b)
  from b 1 2 3 show ?thesis unfolding r by auto
qed

theorem add_book_assigns_greater_id_witness:
  "prompt ''Emma'' \<noteq> [] \<and> prompt ''Austen'' \<noteq> [] \<and> prompt ''1815'' \<noteq> [] \<and>
   py_int (prompt ''1815'') \<noteq> None \<and> ids_below_counter fresh_db \<and>
   assigned_ids json_dumps [Create ''Dune'' ''Herbert'' ''1965'', Delete ''1''] (fresh_db, quiet_world) = [1] \<and>
   (\<exists>b. fst (add_book json_dumps ''Emma'' ''Austen'' ''1815''
               (run json_dumps [Create ''Dune'' ''Herbert'' ''1965'', Delete ''1''] (fresh_db, quiet_world)))
           = Book_added \<and>
        books (fst (snd (add_book json_dumps ''Emma'' ''Austen'' ''1815''
               (run json_dumps [Create ''Dune'' ''Herbert'' ''1965'', Delete ''1''] (fresh_db, quiet_world)))))
           = books (fst (run json_dumps [Create ''Dune'' ''Herbert'' ''1965'', Delete ''1'']
                           (fresh_db, quiet_world))) @ [b] \<and>
        available b \<and>
        (\<forall>i \<in> set (assigned_ids json_dumps [Create ''Dune'' ''Herbert'' ''1965'', Delete ''1'']
                        (fresh_db, quiet_world)). i < book_id b) \<and>
        (\<forall>x \<in> set (books fresh_db) \<union>
                set (books (fst (run json_dumps [Create ''Dune'' ''Herbert'' ''1965'', Delete ''1'']
                                   (fresh_db, quiet_world)))). book_id x < book_id b))"
proof -
  have h1: "prompt ''Emma'' \<noteq> []" by code_simp
  have h2: "prompt ''Austen'' \<noteq> []" by code_simp
  have h3: "prompt ''1815'' \<noteq> []" by code_simp
  have h4: "py_int (prompt ''1815'') \<noteq> None" by code_simp
  have h5: "ids_below_counter fresh_db" by code_simp
  have g: "assigned_ids json_dumps [Create ''Dune'' ''Herbert'' ''1965'', Delete ''1'']
             (fresh_db, quiet_world) = [1]"
    by code_simp
  from add_book_assigns_greater_id [OF h1 h2 h3 h4 h5, of json_dumps
         "[Create ''Dune'' ''Herbert'' ''1965'', Delete ''1'']" quiet_world]
       h1 h2 h3 h4 h5 g
  show ?thesis by blast
qed

text \<open>
  C3. When the title, the author or the year is empty after stripping, or \<open>int\<close> does not
  read the year, \<open>add_book\<close> prints one of its two complaints and leaves the store and
  the environment as they were: the list of books, the counter and the file.
\<close>

theorem add_book_rejects:
  assumes "prompt t = [] \<or> prompt a = [] \<or> prompt y = [] \<or> py_int (prompt y) = None"
  shows "snd (add_book dumps t a y s) = s \<and>
         fst (add_book dumps t a y s) \<in> {All_fields_are_required, Year_must_be_a_number}"
proof (cases s)
  case (Pair d w)
  with assms show ?thesis by (auto simp: Let_def split: option.splits)
qed

theorem add_book_rejects_witness:
  "(prompt ''A'' = [] \<or> prompt ''B'' = [] \<or> prompt ''abc'' = [] \<or> py_int (prompt ''abc'') = None) \<and>
   snd (add_book json_dumps ''A'' ''B'' ''abc'' (fresh_db, quiet_world)) = (fresh_db, quiet_world) \<and>
   fst (add_book json_dumps ''A'' ''B'' ''abc'' (fresh_db, quiet_world))
     \<in> {All_fields_are_required, Year_must_be_a_number}"
proof -
  have h: "prompt ''A'' = [] \<or> prompt ''B'' = [] \<or> prompt ''abc'' = []
           \<or> py_int (prompt ''abc'') = None"
    by code_simp
  from add_book_rejects [OF h, of json_dumps "(fresh_db, quiet_world)"] h show ?thesis by blast
qed

section \<open>Update\<close>

text \<open>
  C5. When the store has a book with the id typed and the year typed is not empty and
  not all digits, \<open>update_book\<close> prints that the year must be numeric and changes
  nothing: no field of any book, not the counter, not the file, and the clock is not read.
\<close>

theorem update_book_rejects_year:
  assumes "py_int (prompt id_in) = Some bid" and "find_by_id d bid = Some b"
    and "prompt y \<noteq> []" and "\<not> isdigit (prompt y)"
  shows "update_book dumps id_in t a y (d, w) = (Year_must_be_numeric, (d, w))"
  using assms by (simp add: Let_def)

theorem update_book_rejects_year_witness:
  "py_int (prompt ''1'') = Some 1 \<and> find_by_id dune_db 1 = Some dune \<and>
   prompt ''19x5'' \<noteq> [] \<and> \<not> isdigit (prompt ''19x5'') \<and>
   update_book json_dumps ''1'' ''Dune 2'' ''F. Herbert'' ''19x5'' (dune_db, quiet_world)
     = (Year_must_be_numeric, (dune_db, quiet_world))"
proof -
  have h1: "py_int (prompt ''1'') = Some 1" by code_simp
  have h2: "find_by_id dune_db 1 = Some dune" by code_simp
  have h3: "prompt ''19x5'' \<noteq> []" by code_simp
  have h4: "\<not> isdigit (prompt ''19x5'')" by code_simp
  from update_book_rejects_year
         [OF h1 h2 h3 h4, of json_dumps "''Dune 2''" "''F. Herbert''" quiet_world]
       h1 h2 h3 h4
  show ?thesis by blast
qed

section \<open>Borrow and Return\<close>

text \<open>
  C9. When the store has an available book with the id typed and the borrower's name is
  not empty, \<open>borrow_book\<close> and then \<open>return_book\<close> on that id both succeed, and the
  book found under the id is then available, has no borrower, and has the id, title,
  author and year that it had before.
\<close>

theorem borrow_then_return:
  assumes "py_int (prompt id_in) = Some bid" and "find_by_id d bid = Some b"
    and "available b" and "prompt n \<noteq> []"
  shows "\<exists>s1 s2 b2. borrow_book dumps id_in n (d, w) = (Borrowed, s1) \<and>
           return_book dumps id_in s1 = (Returned, s2) \<and>
           find_by_id (fst s2) bid = Some b2 \<and>
           available b2 \<and> borrower b2 = [] \<and>
           book_id b2 = book_id b \<and> title b2 = title b \<and> author b2 = author b \<and>
           year b2 = year b"
  using assms
  by (simp add: Let_def now_def find_by_id_def find_assign_found split: prod.splits)

theorem borrow_then_return_witness:
  "py_int (prompt ''1'') = Some 1 \<and> find_by_id dune_db 1 = Some dune \<and> available dune \<and>
   prompt ''Ana'' \<noteq> [] \<and>
   (\<exists>s1 s2 b2. borrow_book json_dumps ''1'' ''Ana'' (dune_db, quiet_world) = (Borrowed, s1) \<and>
      return_book json_dumps ''1'' s1 = (Returned, s2) \<and>
      find_by_id (fst s2) 1 = Some b2 \<and>
      available b2 \<and> borrower b2 = [] \<and>
      book_id b2 = book_id dune \<and> title b2 = title dune \<and> author b2 = author dune \<and>
      year b2 = year dune)"
proof -
  have h1: "py_int (prompt ''1'') = Some 1" by code_simp
  have h2: "find_by_id dune_db 1 = Some dune" by code_simp
  have h3: "available dune" by code_simp
  have h4: "prompt ''Ana'' \<noteq> []" by code_simp
  from borrow_then_return [OF h1 h2 h3 h4, of json_dumps quiet_world] h1 h2 h3 h4
  show ?thesis by blast
qed

text \<open>
  C10. \<open>borrow_book\<close> looks for the book, then at its availability, and only then asks
  for the borrower's name: on a book that is lent it prints the name of the current
  borrower and changes nothing, whatever name would be typed; and it complains of an
  empty name only when the book exists and is available.
\<close>

theorem borrow_book_check_order:
  "(\<forall>bid b. py_int (prompt id_in) = Some bid \<and> find_by_id d bid = Some b \<and> \<not> available b \<longrightarrow>
      borrow_book dumps id_in n (d, w) = (Already_borrowed_by (borrower b), (d, w))) \<and>
   (fst (borrow_book dumps id_in n (d, w)) = Borrower_name_required \<longrightarrow>
      (\<exists>bid b. py_int (prompt id_in) = Some bid \<and> find_by_id d bid = Some b \<and> available b
         \<and> prompt n = []))"
  by (auto simp: Let_def split: option.splits prod.splits)

theorem borrow_book_check_order_witness:
  "(py_int (prompt ''1'') = Some 1 \<and> find_by_id lent_db 1 = Some lent_dune \<and> \<not> available lent_dune) \<and>
   borrow_book json_dumps ''1'' ''Ben'' (lent_db, quiet_world)
     = (Already_borrowed_by (borrower lent_dune), (lent_db, quiet_world)) \<and>
   fst (borrow_book json_dumps ''1'' ''  '' (dune_db, quiet_world)) = Borrower_name_required \<and>
   (\<exists>bid b. py_int (prompt ''1'') = Some bid \<and> find_by_id dune_db bid = Some b \<and> available b
      \<and> prompt ''  '' = [])"
proof -
  have h: "py_int (prompt ''1'') = Some 1 \<and> find_by_id lent_db 1 = Some lent_dune
           \<and> \<not> available lent_dune"
    by code_simp
  have g: "fst (borrow_book json_dumps ''1'' ''  '' (dune_db, quiet_world)) = Borrower_name_required"
    by code_simp
  from borrow_book_check_order [of "''1''" lent_db json_dumps "''Ben''" quiet_world]
       borrow_book_check_order [of "''1''" dune_db json_dumps "''  ''" quiet_world] h g
  show ?thesis by blast
qed

end
